theory Spec2Isabelle
  imports Main
begin

section \<open>Python values used by pyalign.py\<close>

text \<open>
  The two exceptions the alignment code can raise: a dictionary lookup with a missing key
  and a list or string subscript out of range.
\<close>

datatype error = KeyError | IndexError

type_synonym 'a result = "error + 'a"

definition and_then :: "'a result \<Rightarrow> ('a \<Rightarrow> 'b result) \<Rightarrow> 'b result" where
  "and_then r f = (case r of Inl e \<Rightarrow> Inl e | Inr v \<Rightarrow> f v)"

text \<open>
  Subscripts are Python integers: a negative subscript counts from the end, and a subscript
  outside \<open>-len .. len-1\<close> raises IndexError. \<open>py_pos len k\<close> is the position that
  subscript \<open>k\<close> denotes in a sequence of length \<open>len\<close>.
\<close>

definition py_pos :: "nat \<Rightarrow> int \<Rightarrow> nat result" where
  "py_pos len k =
     (if 0 \<le> k \<and> k < int len then Inr (nat k)
      else if k < 0 \<and> - int len \<le> k then Inr (nat (int len + k))
      else Inl IndexError)"

definition py_index :: "'a list \<Rightarrow> int \<Rightarrow> 'a result" where
  "py_index xs k = and_then (py_pos (length xs) k) (\<lambda>p. Inr (xs ! p))"

definition py_store :: "'a list \<Rightarrow> int \<Rightarrow> 'a \<Rightarrow> 'a list result" where
  "py_store xs k v = and_then (py_pos (length xs) k) (\<lambda>p. Inr (xs[p := v]))"

text \<open>\<open>g[i][j]\<close> and \<open>g[i][j] = v\<close> on a list of (unshared) row lists.\<close>

definition py_index2 :: "'a list list \<Rightarrow> int \<Rightarrow> int \<Rightarrow> 'a result" where
  "py_index2 g i j = and_then (py_index g i) (\<lambda>row. py_index row j)"

definition py_store2 :: "'a list list \<Rightarrow> int \<Rightarrow> int \<Rightarrow> 'a \<Rightarrow> 'a list list result" where
  "py_store2 g i j v =
     and_then (py_pos (length g) i) (\<lambda>p.
     and_then (py_store (g ! p) j v) (\<lambda>row. Inr (g[p := row])))"

text \<open>\<open>range(a, b)\<close> and a \<open>for\<close> loop over a list whose body may raise.\<close>

definition py_range :: "int \<Rightarrow> int \<Rightarrow> int list" where
  "py_range a b = [a..b - 1]"

fun for_each :: "'a list \<Rightarrow> ('a \<Rightarrow> 's \<Rightarrow> 's result) \<Rightarrow> 's \<Rightarrow> 's result" where
  "for_each [] body s = Inr s"
| "for_each (x # xs) body s = and_then (body x s) (for_each xs body)"

text \<open>A dictionary literal as an association list; \<open>d[k]\<close> raises KeyError on a missing key.\<close>

definition dict_get :: "('k \<times> 'v) list \<Rightarrow> 'k \<Rightarrow> 'v result" where
  "dict_get d k = (case map_of d k of None \<Rightarrow> Inl KeyError | Some v \<Rightarrow> Inr v)"

section \<open>class PairwiseAlignment\<close>

subsection \<open>The substitution score matrix\<close>

text \<open>
  \<open>self.svals\<close> is assigned once, in the constructor, and never written again, so it is a
  constant here. Every inner dictionary of the source lists its keys in the order of
  \<open>bases\<close>.
\<close>

definition bases :: string where
  "bases = ''ATGCWSMKRYBDHVN''"

definition svals :: "(char \<times> (char \<times> int) list) list" where
  "svals = [
   (CHR ''A'', zip bases [6, -6, -6, -6, 0, -6, 0, -6, 0, -6, -6, -2, -2, -2, -3]),
   (CHR ''T'', zip bases [-6, 6, -6, -6, 0, -6, -6, 0, -6, 0, -2, -2, -2, -6, -3]),
   (CHR ''G'', zip bases [-6, -6, 6, -6, -6, 0, -6, 0, 0, -6, -2, -2, -6, -2, -3]),
   (CHR ''C'', zip bases [-6, -6, -6, 6, -6, 0, 0, -6, -6, 0, -2, -6, -2, -2, -3]),
   (CHR ''W'', zip bases [0, 0, -6, -6, 0, -6, -3, -3, -3, -3, -4, -2, -2, -4, -3]),
   (CHR ''S'', zip bases [-6, -6, 0, 0, -6, 0, -3, -3, -3, -3, -2, -4, -4, -2, -3]),
   (CHR ''M'', zip bases [0, -6, -6, 0, -3, -3, 0, -6, -3, -3, -4, -4, -2, -2, -3]),
   (CHR ''K'', zip bases [-6, 0, 0, -6, -3, -3, -6, 0, -3, -3, -2, -2, -4, -4, -3]),
   (CHR ''R'', zip bases [0, -6, 0, -6, -3, -3, -3, -3, 0, -6, -4, -2, -4, -2, -3]),
   (CHR ''Y'', zip bases [-6, 0, -6, 0, -3, -3, -3, -3, -6, 0, -2, -4, -2, -4, -3]),
   (CHR ''B'', zip bases [-6, -2, -2, -2, -4, -2, -4, -2, -4, -2, -2, -3, -3, -3, -3]),
   (CHR ''D'', zip bases [-2, -2, -2, -6, -2, -4, -4, -2, -2, -4, -3, -2, -3, -3, -3]),
   (CHR ''H'', zip bases [-2, -2, -6, -2, -2, -4, -2, -4, -4, -2, -3, -3, -2, -3, -3]),
   (CHR ''V'', zip bases [-2, -6, -2, -2, -4, -2, -2, -4, -2, -4, -3, -3, -3, -2, -3]),
   (CHR ''N'', zip bases [-3, -3, -3, -3, -3, -3, -3, -3, -3, -3, -3, -3, -3, -3, -3])]"

subsection \<open>Fields, constructor, setters and getters\<close>

text \<open>
  The mutable fields of the object. The sequences are Python strings, modelled as lists of
  characters; a one-character string (an element of a sequence, a key of the score matrix,
  the gap symbol) is a character.
\<close>

record PairwiseAlignment =
  gapp :: int
  seq1 :: string
  seq2 :: string
  seq1aligned :: string
  seq2aligned :: string
  seq1indexed :: "int list"
  seq2indexed :: "int list"
  score :: int

definition init :: PairwiseAlignment where
  "init = \<lparr>gapp = - 6, seq1 = [], seq2 = [],
            seq1aligned = [], seq2aligned = [],
            seq1indexed = [], seq2indexed = [], score = 0\<rparr>"

definition setGapPenalty :: "PairwiseAlignment \<Rightarrow> int \<Rightarrow> PairwiseAlignment" where
  "setGapPenalty self gap_penalty = self\<lparr>gapp := gap_penalty\<rparr>"

definition getGapPenalty :: "PairwiseAlignment \<Rightarrow> int" where
  "getGapPenalty self = gapp self"

definition setSequences :: "PairwiseAlignment \<Rightarrow> string \<Rightarrow> string \<Rightarrow> PairwiseAlignment" where
  "setSequences self sequence1 sequence2 = self\<lparr>seq1 := sequence1, seq2 := sequence2\<rparr>"

definition getSequences :: "PairwiseAlignment \<Rightarrow> string \<times> string" where
  "getSequences self = (seq1 self, seq2 self)"

definition getAlignedSequences :: "PairwiseAlignment \<Rightarrow> string \<times> string" where
  "getAlignedSequences self = (seq1aligned self, seq2aligned self)"

definition getAlignedSeqIndexes :: "PairwiseAlignment \<Rightarrow> int list \<times> int list" where
  "getAlignedSeqIndexes self = (seq1indexed self, seq2indexed self)"

definition getAlignmentScore :: "PairwiseAlignment \<Rightarrow> int" where
  "getAlignmentScore self = score self"

subsection \<open>doAlignment: the two matrices\<close>

text \<open>
  A cell of \<open>tracebk\<close> holds the integer \<open>0\<close> it was created with or one of the strings
  \<open>'d'\<close>, \<open>'u'\<close>, \<open>'l'\<close>.
\<close>

datatype pointer = P0 | Pd | Pu | Pl

definition new_scores :: "int \<Rightarrow> int \<Rightarrow> int list list" where
  "new_scores seq1len seq2len =
     map (\<lambda>j. map (\<lambda>i. 0) (py_range 0 (seq2len + 1))) (py_range 0 (seq1len + 1))"

definition new_tracebk :: "int \<Rightarrow> int \<Rightarrow> pointer list list" where
  "new_tracebk seq1len seq2len =
     map (\<lambda>j. map (\<lambda>i. P0) (py_range 0 (seq2len + 1))) (py_range 0 (seq1len + 1))"

definition init_tracebk :: "int \<Rightarrow> int \<Rightarrow> pointer list list \<Rightarrow> pointer list list result" where
  "init_tracebk seq1len seq2len tracebk =
     and_then (for_each (py_range 1 (seq1len + 1)) (\<lambda>i tb. py_store2 tb i 0 Pl) tracebk) (\<lambda>tb.
     for_each (py_range 1 (seq2len + 1)) (\<lambda>j tb. py_store2 tb 0 j Pu) tb)"

text \<open>
  The three subscores of a cell, in the source's order of evaluation: \<open>sdiag\<close>, \<open>sup\<close>,
  \<open>sleft\<close>, then the two end-gap adjustments.
\<close>

definition cell_candidates ::
  "PairwiseAlignment \<Rightarrow> int list list \<Rightarrow> int \<Rightarrow> int \<Rightarrow> (int \<times> int \<times> int) result" where
  "cell_candidates self scores i j =
     and_then (py_index2 scores (i - 1) (j - 1)) (\<lambda>d0.
     and_then (py_index (seq1 self) (i - 1)) (\<lambda>c1.
     and_then (dict_get svals c1) (\<lambda>row.
     and_then (py_index (seq2 self) (j - 1)) (\<lambda>c2.
     and_then (dict_get row c2) (\<lambda>sv.
     and_then (py_index2 scores i (j - 1)) (\<lambda>u0.
     and_then (py_index2 scores (i - 1) j) (\<lambda>l0.
       let sdiag = d0 + sv;
           sup = u0 + gapp self;
           sleft = l0 + gapp self;
           sleft = (if j = int (length (seq2 self)) then sleft - gapp self else sleft);
           sup = (if i = int (length (seq1 self)) then sup - gapp self else sup)
       in Inr (sdiag, sup, sleft))))))))"

definition fill_cell ::
  "PairwiseAlignment \<Rightarrow> int \<Rightarrow> int \<Rightarrow> int list list \<times> pointer list list
     \<Rightarrow> (int list list \<times> pointer list list) result" where
  "fill_cell self i j g =
     (case g of (scores, tracebk) \<Rightarrow>
        and_then (cell_candidates self scores i j) (\<lambda>(sdiag, sup, sleft).
          if sdiag \<ge> sup \<and> sdiag \<ge> sleft then
            and_then (py_store2 tracebk i j Pd) (\<lambda>tb.
            and_then (py_store2 scores i j sdiag) (\<lambda>sc. Inr (sc, tb)))
          else if sup \<ge> sdiag \<and> sup \<ge> sleft then
            and_then (py_store2 tracebk i j Pu) (\<lambda>tb.
            and_then (py_store2 scores i j sup) (\<lambda>sc. Inr (sc, tb)))
          else
            and_then (py_store2 tracebk i j Pl) (\<lambda>tb.
            and_then (py_store2 scores i j sleft) (\<lambda>sc. Inr (sc, tb)))))"

definition fill_row ::
  "PairwiseAlignment \<Rightarrow> int \<Rightarrow> int list list \<times> pointer list list
     \<Rightarrow> (int list list \<times> pointer list list) result" where
  "fill_row self i g =
     for_each (py_range 1 (int (length (seq2 self)) + 1)) (\<lambda>j. fill_cell self i j) g"

definition fill ::
  "PairwiseAlignment \<Rightarrow> int list list \<times> pointer list list
     \<Rightarrow> (int list list \<times> pointer list list) result" where
  "fill self g =
     for_each (py_range 1 (int (length (seq1 self)) + 1)) (\<lambda>i. fill_row self i) g"

subsection \<open>doAlignment: following the pointers\<close>

text \<open>
  The \<open>while (i > 0) or (j > 0)\<close> loop. The four lists are appended to, as in the
  source; the caller reverses them.
\<close>

function traceback ::
  "string \<Rightarrow> string \<Rightarrow> pointer list list \<Rightarrow> int \<Rightarrow> int
     \<Rightarrow> string \<times> string \<times> int list \<times> int list
     \<Rightarrow> (string \<times> string \<times> int list \<times> int list) result" where
  "traceback s1 s2 tracebk i j acc =
     (case acc of (seq1a, seq2a, seq1aindex, seq2aindex) \<Rightarrow>
      if i > 0 \<or> j > 0 then
        (case py_index2 tracebk i j of
           Inl e \<Rightarrow> Inl e
         | Inr p \<Rightarrow>
             if p = Pd then
               (case py_index s1 (i - 1) of
                  Inl e \<Rightarrow> Inl e
                | Inr c1 \<Rightarrow>
                   (case py_index s2 (j - 1) of
                      Inl e \<Rightarrow> Inl e
                    | Inr c2 \<Rightarrow>
                        traceback s1 s2 tracebk (i - 1) (j - 1)
                          (seq1a @ [c1], seq2a @ [c2],
                           seq1aindex @ [i - 1], seq2aindex @ [j - 1])))
             else if p = Pu then
               (case py_index s2 (j - 1) of
                  Inl e \<Rightarrow> Inl e
                | Inr c2 \<Rightarrow>
                    traceback s1 s2 tracebk i (j - 1)
                      (seq1a @ [CHR ''-''], seq2a @ [c2],
                       seq1aindex @ [- 1], seq2aindex @ [j - 1]))
             else
               (case py_index s1 (i - 1) of
                  Inl e \<Rightarrow> Inl e
                | Inr c1 \<Rightarrow>
                    traceback s1 s2 tracebk (i - 1) j
                      (seq1a @ [c1], seq2a @ [CHR ''-''],
                       seq1aindex @ [i - 1], seq2aindex @ [- 1])))
      else Inr acc)"
  by pat_completeness auto

termination traceback
proof (relation "measure (\<lambda>(s1, s2, tb, i, j, acc).
         nat (i + int (length s1)) + nat (j + int (length s2)))", goal_cases)
  case 1
  show ?case by simp
next
  case (2 s1 s2 tracebk i j acc x1 x2 x3 x4 x5 x6 p c1 c2)
  from 2(7) have "- int (length s1) \<le> i - 1"
    by (auto simp: py_index_def py_pos_def and_then_def split: if_splits)
  moreover from 2(8) have "- int (length s2) \<le> j - 1"
    by (auto simp: py_index_def py_pos_def and_then_def split: if_splits)
  ultimately show ?case by (simp del: of_nat_add; linarith)
next
  case (3 s1 s2 tracebk i j acc x1 x2 x3 x4 x5 x6 p c2)
  from 3(8) have "- int (length s2) \<le> j - 1"
    by (auto simp: py_index_def py_pos_def and_then_def split: if_splits)
  then show ?case by (simp del: of_nat_add; linarith)
next
  case (4 s1 s2 tracebk i j acc x1 x2 x3 x4 x5 x6 p c1)
  from 4(8) have "- int (length s1) \<le> i - 1"
    by (auto simp: py_index_def py_pos_def and_then_def split: if_splits)
  then show ?case by (simp del: of_nat_add; linarith)
qed

subsection \<open>doAlignment: marking the gaps\<close>

text \<open>
  One iteration of the last loop, on \<open>(seq1indexed, seq2indexed, seq1gv, seq2gv)\<close>.
\<close>

definition mark_step ::
  "int \<Rightarrow> int list \<times> int list \<times> int \<times> int \<Rightarrow> (int list \<times> int list \<times> int \<times> int) result" where
  "mark_step cnt st =
     (case st of (ix1, ix2, seq1gv, seq2gv) \<Rightarrow>
        and_then (py_index ix1 cnt) (\<lambda>v1.
        and_then (if v1 = - 1 then and_then (py_store ix1 cnt seq1gv) (\<lambda>ix1'. Inr (ix1', seq1gv))
                  else Inr (ix1, seq1gv - 1)) (\<lambda>(ix1', seq1gv').
        and_then (py_index ix2 cnt) (\<lambda>v2.
        and_then (if v2 = - 1 then and_then (py_store ix2 cnt seq2gv) (\<lambda>ix2'. Inr (ix2', seq2gv))
                  else Inr (ix2, seq2gv - 1)) (\<lambda>(ix2', seq2gv').
        Inr (ix1', ix2', seq1gv', seq2gv'))))))"

definition mark_gaps :: "int list \<Rightarrow> int list \<Rightarrow> (int list \<times> int list) result" where
  "mark_gaps ix1 ix2 =
     and_then (for_each (py_range 0 (int (length ix1))) mark_step (ix1, ix2, - 1, - 1))
       (\<lambda>(ix1', ix2', seq1gv, seq2gv). Inr (ix1', ix2'))"

subsection \<open>doAlignment\<close>

text \<open>
  The method returns the updated object, or the exception that escapes it. The fields are
  assigned in the source's order: the score after the fill, the aligned sequences after the
  walk, the index arrays marked last.
\<close>

definition doAlignment :: "PairwiseAlignment \<Rightarrow> PairwiseAlignment result" where
  "doAlignment self =
     (let seq1len = int (length (seq1 self));
          seq2len = int (length (seq2 self));
          scores = new_scores seq1len seq2len;
          tracebk = new_tracebk seq1len seq2len
      in and_then (init_tracebk seq1len seq2len tracebk) (\<lambda>tracebk.
         and_then (fill self (scores, tracebk)) (\<lambda>(scores, tracebk).
         and_then (py_index2 scores seq1len seq2len) (\<lambda>sc.
         let self = self\<lparr>score := sc\<rparr> in
         and_then (traceback (seq1 self) (seq2 self) tracebk seq1len seq2len ([], [], [], []))
           (\<lambda>(seq1a, seq2a, seq1aindex, seq2aindex).
         let self = self\<lparr>seq1aligned := rev seq1a, seq2aligned := rev seq2a\<rparr> in
         and_then (mark_gaps (rev seq1aindex) (rev seq2aindex)) (\<lambda>(ix1, ix2).
         Inr (self\<lparr>seq1indexed := ix1, seq2indexed := ix2\<rparr>)))))))"

section \<open>Notions used in the statements and proofs\<close>

text \<open>The keys of a dictionary literal.\<close>

definition dict_keys :: "('k \<times> 'v) list \<Rightarrow> 'k set" where
  "dict_keys d = fst ` set d"

text \<open>
  A matrix of \<open>n + 1\<close> rows of \<open>m + 1\<close> cells, and a traceback matrix whose first row and
  first column are as the two initialisation loops leave them.
\<close>

definition grid :: "nat \<Rightarrow> nat \<Rightarrow> 'a list list \<Rightarrow> bool" where
  "grid n m g \<longleftrightarrow> length g = Suc n \<and> (\<forall>r \<in> set g. length r = Suc m)"

definition border :: "nat \<Rightarrow> nat \<Rightarrow> pointer list list \<Rightarrow> bool" where
  "border n m tb \<longleftrightarrow>
     grid n m tb \<and> (\<forall>b < m. tb ! 0 ! Suc b = Pu) \<and> (\<forall>a < n. tb ! Suc a ! 0 = Pl)"

text \<open>The shape of the pair \<open>(scores, tracebk)\<close> that the fill maintains for an object.\<close>

definition shaped :: "PairwiseAlignment \<Rightarrow> int list list \<times> pointer list list \<Rightarrow> bool" where
  "shaped self g \<longleftrightarrow>
     grid (length (seq1 self)) (length (seq2 self)) (fst g) \<and>
     border (length (seq1 self)) (length (seq2 self)) (snd g)"

text \<open>
  The condition under which the fill raises: both sequences are non-empty and some
  character of one of them is not a key of the score matrix.
\<close>

definition raises :: "PairwiseAlignment \<Rightarrow> bool" where
  "raises self \<longleftrightarrow>
     seq1 self \<noteq> [] \<and> seq2 self \<noteq> [] \<and>
     \<not> set (seq1 self) \<union> set (seq2 self) \<subseteq> dict_keys svals"

text \<open>
  What the walk appends for one sequence \<open>s\<close> when it starts in row (or column) \<open>a\<close>:
  symbols \<open>B\<close> and raw indexes \<open>Y\<close>, in the order of the walk (end to start). Each column
  is a gap (\<open>'-'\<close>, \<open>-1\<close>) or a base with its index, and the indexes of the bases are
  \<open>a - 1, ..., 0\<close>.
\<close>

definition trail :: "string \<Rightarrow> nat \<Rightarrow> string \<Rightarrow> int list \<Rightarrow> bool" where
  "trail s a B Y \<longleftrightarrow>
     length B = length Y \<and>
     (\<forall>(c, k) \<in> set (zip B Y).
        k = - 1 \<and> c = CHR ''-'' \<or> 0 \<le> k \<and> nat k < length s \<and> c = s ! nat k) \<and>
     filter (\<lambda>k. 0 \<le> k) Y = rev (map int [0..<a])"

text \<open>The gap-marking loop in closed form, with \<open>g\<close> the current value of the counter.\<close>

fun marked :: "int \<Rightarrow> int list \<Rightarrow> int list" where
  "marked g [] = []"
| "marked g (x # xs) = (if x = - 1 then g # marked g xs else x # marked (g - 1) xs)"

section \<open>Basic facts about the Python operations\<close>

lemma and_then_Inr [simp]: "and_then (Inr v) f = f v"
  by (simp add: and_then_def)

lemma and_then_Inl [simp]: "and_then (Inl e) f = Inl e"
  by (simp add: and_then_def)

lemma and_then_eq_Inr: "and_then r f = Inr y \<longleftrightarrow> (\<exists>v. r = Inr v \<and> f v = Inr y)"
  by (cases r) simp_all

lemma py_pos_less: "py_pos len k = Inr p \<Longrightarrow> p < len"
  by (auto simp: py_pos_def split: if_splits)

text \<open>A cell that has just been stored reads back, whatever the sign of the subscripts.\<close>

lemma py_store2_then_index2:
  assumes "py_store2 g i j v = Inr g'"
  shows "py_index2 g' i j = Inr v"
proof -
  from assms obtain p row where p: "py_pos (length g) i = Inr p"
    and row: "py_store (g ! p) j v = Inr row" and g': "g' = g[p := row]"
    by (auto simp: py_store2_def and_then_eq_Inr)
  from row obtain q where q: "py_pos (length (g ! p)) j = Inr q" and r: "row = (g ! p)[q := v]"
    by (auto simp: py_store_def and_then_eq_Inr)
  have "py_index g' i = Inr row"
    using p py_pos_less[OF p] by (simp add: py_index_def g')
  moreover have "py_index row j = Inr v"
    using q py_pos_less[OF q] by (simp add: py_index_def r)
  ultimately show ?thesis by (simp add: py_index2_def)
qed

section \<open>Ranges and loops\<close>

lemma upto_from_1: "[1..int n] = map (\<lambda>k. int (Suc k)) [0..<n]"
proof (induction n)
  case 0
  show ?case by simp
next
  case (Suc n)
  have "[1..int (Suc n)] = [1..int n] @ [int (Suc n)]"
    using upto_rec2[of 1 "int (Suc n)"] by simp
  with Suc show ?case by simp
qed

lemma upto_from_0: "[0..int n - 1] = map int [0..<n]"
proof (induction n)
  case 0
  show ?case by simp
next
  case (Suc n)
  have "[0..int (Suc n) - 1] = [0..int n - 1] @ [int n]"
    using upto_rec2[of 0 "int n"] by simp
  with Suc show ?case by simp
qed

lemma py_range_1: "py_range 1 (int n + 1) = map (\<lambda>k. int (Suc k)) [0..<n]"
  by (simp add: py_range_def upto_from_1)

lemma py_range_0: "py_range 0 (int n) = map int [0..<n]"
  by (simp add: py_range_def upto_from_0)

lemma py_range_0_Suc: "py_range 0 (int n + 1) = map int [0..<Suc n]"
  using py_range_0[of "Suc n"] by (simp add: add.commute)

lemma for_each_map: "for_each (map f xs) body s = for_each xs (\<lambda>x. body (f x)) s"
  by (induction xs arbitrary: s) (simp_all add: and_then_def split: sum.splits)

lemma for_each_append:
  "for_each (xs @ ys) body s = and_then (for_each xs body s) (for_each ys body)"
  by (induction xs arbitrary: s) (simp_all add: and_then_def split: sum.splits)

lemma for_each_inv:
  assumes "Q s"
    and "\<And>x s. x \<in> set xs \<Longrightarrow> Q s \<Longrightarrow> \<exists>s'. body x s = Inr s' \<and> Q s'"
  shows "\<exists>s'. for_each xs body s = Inr s' \<and> Q s'"
  using assms
proof (induction xs arbitrary: s)
  case Nil
  then show ?case by simp
next
  case (Cons x xs)
  from Cons.prems obtain s1 where s1: "body x s = Inr s1" "Q s1"
    by (meson list.set_intros(1))
  from Cons.IH[OF s1(2)] Cons.prems(2) s1(1) show ?case by simp
qed

lemma for_each_upt_inv:
  assumes "P a s" and "a \<le> b"
    and "\<And>k s. a \<le> k \<Longrightarrow> k < b \<Longrightarrow> P k s \<Longrightarrow> \<exists>s'. body k s = Inr s' \<and> P (Suc k) s'"
  shows "\<exists>s'. for_each [a..<b] body s = Inr s' \<and> P b s'"
  using assms(2,3)
proof (induction b)
  case 0
  with assms(1) show ?case by simp
next
  case (Suc b)
  show ?case
  proof (cases "a = Suc b")
    case True
    with assms(1) show ?thesis by simp
  next
    case False
    with Suc.prems have ab: "a \<le> b" by simp
    from Suc.IH[OF ab] Suc.prems(2) obtain s1 where
      s1: "for_each [a..<b] body s = Inr s1" "P b s1"
      by (meson less_Suc_eq)
    from Suc.prems(2)[OF ab _ s1(2)] obtain s2 where "body b s1 = Inr s2" "P (Suc b) s2"
      by auto
    with s1 ab show ?thesis by (simp add: for_each_append)
  qed
qed

lemma for_each_weak:
  assumes "Q s"
    and "\<And>x s. x \<in> set xs \<Longrightarrow> Q s \<Longrightarrow> body x s = Inl e \<or> (\<exists>s'. body x s = Inr s' \<and> Q s')"
  shows "for_each xs body s = Inl e \<or> (\<exists>s'. for_each xs body s = Inr s' \<and> Q s')"
  using assms
proof (induction xs arbitrary: s)
  case Nil
  then show ?case by simp
next
  case (Cons x xs)
  from Cons.prems(2)[of x s] Cons.prems(1)
  consider "body x s = Inl e" | s1 where "body x s = Inr s1" "Q s1"
    by auto
  then show ?case
  proof cases
    case 1
    then show ?thesis by simp
  next
    case 2
    from Cons.IH[OF 2(2)] Cons.prems(2) 2(1) show ?thesis by simp
  qed
qed

lemma for_each_fails:
  assumes "Q s"
    and "\<And>x s. x \<in> set xs \<Longrightarrow> Q s \<Longrightarrow> body x s = Inl e \<or> (\<exists>s'. body x s = Inr s' \<and> Q s')"
    and "x0 \<in> set xs" and "\<And>s. Q s \<Longrightarrow> body x0 s = Inl e"
  shows "for_each xs body s = Inl e"
  using assms(1,2,3)
proof (induction xs arbitrary: s)
  case Nil
  then show ?case by simp
next
  case (Cons x xs)
  show ?case
  proof (cases "body x s")
    case (Inl e')
    with Cons.prems(2)[of x s] Cons.prems(1) show ?thesis by simp
  next
    case (Inr s1)
    with Cons.prems(2)[of x s] Cons.prems(1) have q1: "Q s1" by simp
    from Inr assms(4)[OF Cons.prems(1)] have "x \<noteq> x0" by auto
    with Cons.prems(3) have "x0 \<in> set xs" by simp
    from Cons.IH[OF q1 _ this] Cons.prems(2) Inr show ?thesis by simp
  qed
qed

lemma py_pos_nat: "k < len \<Longrightarrow> py_pos len (int k) = Inr k"
  by (simp add: py_pos_def)

lemma py_index_nat: "k < length xs \<Longrightarrow> py_index xs (int k) = Inr (xs ! k)"
  by (simp add: py_index_def py_pos_nat)

lemma py_store_nat: "k < length xs \<Longrightarrow> py_store xs (int k) v = Inr (xs[k := v])"
  by (simp add: py_store_def py_pos_nat)

lemma py_index2_nat:
  "a < length g \<Longrightarrow> b < length (g ! a) \<Longrightarrow> py_index2 g (int a) (int b) = Inr (g ! a ! b)"
  by (simp add: py_index2_def py_index_nat)

lemma py_store2_nat:
  "a < length g \<Longrightarrow> b < length (g ! a) \<Longrightarrow>
   py_store2 g (int a) (int b) v = Inr (g[a := (g ! a)[b := v]])"
  by (simp add: py_store2_def py_pos_nat py_store_nat)

lemma grid_row: "grid n m g \<Longrightarrow> a \<le> n \<Longrightarrow> length (g ! a) = Suc m"
  by (simp add: grid_def)

lemma grid_length: "grid n m g \<Longrightarrow> length g = Suc n"
  by (simp add: grid_def)

lemma grid_update: "grid n m g \<Longrightarrow> a \<le> n \<Longrightarrow> grid n m (g[a := (g ! a)[b := v]])"
  by (auto simp: grid_def dest!: set_update_subset_insert[THEN subsetD])

lemma grid_index2:
  "grid n m g \<Longrightarrow> a \<le> n \<Longrightarrow> b \<le> m \<Longrightarrow> py_index2 g (int a) (int b) = Inr (g ! a ! b)"
  by (simp add: py_index2_nat grid_def)

lemma grid_store2:
  "grid n m g \<Longrightarrow> a \<le> n \<Longrightarrow> b \<le> m \<Longrightarrow>
   py_store2 g (int a) (int b) v = Inr (g[a := (g ! a)[b := v]])"
  by (simp add: py_store2_nat grid_def)

lemma grid_new_scores: "grid n m (new_scores (int n) (int m))"
  by (auto simp: grid_def new_scores_def py_range_0_Suc simp del: upt_Suc)

lemma grid_new_tracebk: "grid n m (new_tracebk (int n) (int m))"
  by (auto simp: grid_def new_tracebk_def py_range_0_Suc simp del: upt_Suc)


lemma border_grid: "border n m tb \<Longrightarrow> grid n m tb"
  by (simp add: border_def)

lemma border_update:
  assumes "border n m tb" and "a < n"
  shows "border n m (tb[Suc a := (tb ! Suc a)[Suc b := v]])"
proof -
  from assms have g: "grid n m tb" by (simp add: border_def)
  have "grid n m (tb[Suc a := (tb ! Suc a)[Suc b := v]])"
    using g assms(2) by (simp add: grid_update)
  moreover have "\<forall>b' < m. tb[Suc a := (tb ! Suc a)[Suc b := v]] ! 0 ! Suc b' = Pu"
    using assms by (simp add: border_def)
  moreover have "\<forall>a' < n. tb[Suc a := (tb ! Suc a)[Suc b := v]] ! Suc a' ! 0 = Pl"
    using assms grid_length[OF g] by (auto simp: border_def nth_list_update)
  ultimately show ?thesis by (simp add: border_def)
qed

lemma init_tracebk_border:
  assumes "grid n m tb0"
  shows "\<exists>tb. init_tracebk (int n) (int m) tb0 = Inr tb \<and> border n m tb"
proof -
  let ?P1 = "\<lambda>k tb. grid n m tb \<and> (\<forall>a < k. tb ! Suc a ! 0 = Pl)"
  have "\<exists>tb. for_each [0..<n] (\<lambda>a tb. py_store2 tb (int (Suc a)) 0 Pl) tb0 = Inr tb \<and> ?P1 n tb"
  proof (rule for_each_upt_inv[where P = ?P1])
    show "?P1 0 tb0" using assms by simp
    show "0 \<le> n" by simp
  next
    fix k tb
    assume k: "k < n" and p: "?P1 k tb"
    from p have g: "grid n m tb" by simp
    have st: "py_store2 tb (int (Suc k)) 0 Pl = Inr (tb[Suc k := (tb ! Suc k)[0 := Pl]])"
      using grid_store2[OF g, of "Suc k" 0 Pl] k by simp
    have "grid n m (tb[Suc k := (tb ! Suc k)[0 := Pl]])"
      using g k by (simp add: grid_update)
    moreover have "\<forall>a < Suc k. tb[Suc k := (tb ! Suc k)[0 := Pl]] ! Suc a ! 0 = Pl"
    proof (intro allI impI)
      fix a
      assume a: "a < Suc k"
      show "tb[Suc k := (tb ! Suc k)[0 := Pl]] ! Suc a ! 0 = Pl"
      proof (cases "a = k")
        case True
        have "Suc k < length tb" and "0 < length (tb ! Suc k)"
          using k grid_length[OF g] grid_row[OF g, of "Suc k"] by simp_all
        with True show ?thesis by simp
      next
        case False
        with a p show ?thesis by simp
      qed
    qed
    ultimately show "\<exists>s'. py_store2 tb (int (Suc k)) 0 Pl = Inr s' \<and> ?P1 (Suc k) s'"
      using st by simp
  qed
  then obtain tb1 where l1: "for_each [0..<n] (\<lambda>a tb. py_store2 tb (int (Suc a)) 0 Pl) tb0 = Inr tb1"
    and g1: "grid n m tb1" and c1: "\<forall>a < n. tb1 ! Suc a ! 0 = Pl"
    by blast
  let ?P2 = "\<lambda>k tb. grid n m tb \<and> (\<forall>a < n. tb ! Suc a ! 0 = Pl) \<and> (\<forall>b < k. tb ! 0 ! Suc b = Pu)"
  have "\<exists>tb. for_each [0..<m] (\<lambda>b tb. py_store2 tb 0 (int (Suc b)) Pu) tb1 = Inr tb \<and> ?P2 m tb"
  proof (rule for_each_upt_inv[where P = ?P2])
    show "?P2 0 tb1" using g1 c1 by simp
    show "0 \<le> m" by simp
  next
    fix k tb
    assume k: "k < m" and p: "?P2 k tb"
    from p have g: "grid n m tb" by simp
    have st: "py_store2 tb 0 (int (Suc k)) Pu = Inr (tb[0 := (tb ! 0)[Suc k := Pu]])"
      using grid_store2[OF g, of 0 "Suc k" Pu] k by simp
    have "grid n m (tb[0 := (tb ! 0)[Suc k := Pu]])"
      using g by (simp add: grid_update)
    moreover have "\<forall>a < n. tb[0 := (tb ! 0)[Suc k := Pu]] ! Suc a ! 0 = Pl"
      using p by simp
    moreover have "\<forall>b < Suc k. tb[0 := (tb ! 0)[Suc k := Pu]] ! 0 ! Suc b = Pu"
    proof (intro allI impI)
      fix b
      assume b: "b < Suc k"
      have len: "0 < length tb" and "Suc k < length (tb ! 0)"
        using k grid_length[OF g] grid_row[OF g, of 0] by simp_all
      then show "tb[0 := (tb ! 0)[Suc k := Pu]] ! 0 ! Suc b = Pu"
        using b p by (cases "b = k") (simp_all add: nth_list_update)
    qed
    ultimately show "\<exists>s'. py_store2 tb 0 (int (Suc k)) Pu = Inr s' \<and> ?P2 (Suc k) s'"
      using st by simp
  qed
  then obtain tb2 where l2: "for_each [0..<m] (\<lambda>b tb. py_store2 tb 0 (int (Suc b)) Pu) tb1 = Inr tb2"
    and "border n m tb2"
    by (auto simp: border_def)
  with l1 show ?thesis
    by (simp add: init_tracebk_def py_range_1 for_each_map)
qed

lemma svals_keys: "dict_keys svals = set bases"
  by (simp add: dict_keys_def svals_def bases_def)

lemma svals_rows: "\<forall>row \<in> snd ` set svals. map fst row = bases"
  by (simp add: svals_def bases_def)

lemma dict_get_missing: "k \<notin> dict_keys d \<Longrightarrow> dict_get d k = Inl KeyError"
  by (simp add: dict_get_def dict_keys_def map_of_eq_None_iff[THEN iffD2])

lemma dict_get_present: "k \<in> dict_keys d \<Longrightarrow> \<exists>v. dict_get d k = Inr v \<and> (k, v) \<in> set d"
proof -
  assume "k \<in> dict_keys d"
  then obtain v where "map_of d k = Some v"
    by (metis dict_keys_def map_of_eq_None_iff not_Some_eq)
  then show ?thesis by (auto simp: dict_get_def dest: map_of_SomeD)
qed

lemma svals_row_keys:
  assumes "(c, row) \<in> set svals"
  shows "dict_keys row = dict_keys svals"
proof -
  from assms have "row \<in> snd ` set svals" by force
  with svals_rows have "map fst row = bases" by blast
  then have "set (map fst row) = set bases" by simp
  then show ?thesis by (simp add: dict_keys_def svals_keys[unfolded dict_keys_def])
qed

section \<open>The fill\<close>

lemma cell_candidates_cases:
  assumes g: "grid (length (seq1 self)) (length (seq2 self)) sc"
    and a: "a < length (seq1 self)" and b: "b < length (seq2 self)"
  shows "cell_candidates self sc (int (Suc a)) (int (Suc b)) = Inl KeyError \<and>
           \<not> (seq1 self ! a \<in> dict_keys svals \<and> seq2 self ! b \<in> dict_keys svals) \<or>
         (\<exists>t. cell_candidates self sc (int (Suc a)) (int (Suc b)) = Inr t) \<and>
           seq1 self ! a \<in> dict_keys svals \<and> seq2 self ! b \<in> dict_keys svals"
proof -
  have d0: "py_index2 sc (int (Suc a) - 1) (int (Suc b) - 1) = Inr (sc ! a ! b)"
    using grid_index2[OF g, of a b] a b by simp
  have c1: "py_index (seq1 self) (int (Suc a) - 1) = Inr (seq1 self ! a)"
    using py_index_nat[of a "seq1 self"] a by simp
  have c2: "py_index (seq2 self) (int (Suc b) - 1) = Inr (seq2 self ! b)"
    using py_index_nat[of b "seq2 self"] b by simp
  have u0: "py_index2 sc (int (Suc a)) (int (Suc b) - 1) = Inr (sc ! Suc a ! b)"
    using grid_index2[OF g, of "Suc a" b] a b by simp
  have l0: "py_index2 sc (int (Suc a) - 1) (int (Suc b)) = Inr (sc ! a ! Suc b)"
    using grid_index2[OF g, of a "Suc b"] a b by simp
  show ?thesis
  proof (cases "seq1 self ! a \<in> dict_keys svals")
    case False
    then have "cell_candidates self sc (int (Suc a)) (int (Suc b)) = Inl KeyError"
      unfolding cell_candidates_def d0 c1 by (simp add: dict_get_missing)
    with False show ?thesis by simp
  next
    case True
    from dict_get_present[OF True] obtain row where
      row: "dict_get svals (seq1 self ! a) = Inr row" and "(seq1 self ! a, row) \<in> set svals"
      by blast
    then have keys: "dict_keys row = dict_keys svals"
      by (simp add: svals_row_keys)
    show ?thesis
    proof (cases "seq2 self ! b \<in> dict_keys svals")
      case False
      with keys have "dict_get row (seq2 self ! b) = Inl KeyError"
        by (simp add: dict_get_missing)
      then have "cell_candidates self sc (int (Suc a)) (int (Suc b)) = Inl KeyError"
        unfolding cell_candidates_def d0 c1 c2 by (simp add: row)
      with False show ?thesis by simp
    next
      case k2: True
      with keys dict_get_present[of "seq2 self ! b" row] obtain sv where
        "dict_get row (seq2 self ! b) = Inr sv"
        by auto
      then have "\<exists>t. cell_candidates self sc (int (Suc a)) (int (Suc b)) = Inr t"
        unfolding cell_candidates_def d0 c1 c2 u0 l0 by (simp add: row Let_def)
      with True k2 show ?thesis by simp
    qed
  qed
qed

lemma fill_cell_cases:
  assumes sh: "shaped self g"
    and a: "a < length (seq1 self)" and b: "b < length (seq2 self)"
  shows "fill_cell self (int (Suc a)) (int (Suc b)) g = Inl KeyError \<and>
           \<not> (seq1 self ! a \<in> dict_keys svals \<and> seq2 self ! b \<in> dict_keys svals) \<or>
         (\<exists>g'. fill_cell self (int (Suc a)) (int (Suc b)) g = Inr g' \<and> shaped self g') \<and>
           seq1 self ! a \<in> dict_keys svals \<and> seq2 self ! b \<in> dict_keys svals"
proof -
  obtain sc tb where g: "g = (sc, tb)" by (cases g)
  from sh g have gs: "grid (length (seq1 self)) (length (seq2 self)) sc"
    and bt: "border (length (seq1 self)) (length (seq2 self)) tb"
    by (simp_all add: shaped_def)
  note gt = border_grid[OF bt]
  have st_tb: "\<And>v. py_store2 tb (int (Suc a)) (int (Suc b)) v =
      Inr (tb[Suc a := (tb ! Suc a)[Suc b := v]])"
    using grid_store2[OF gt, of "Suc a" "Suc b"] a b by simp
  have st_sc: "\<And>v. py_store2 sc (int (Suc a)) (int (Suc b)) v =
      Inr (sc[Suc a := (sc ! Suc a)[Suc b := v]])"
    using grid_store2[OF gs, of "Suc a" "Suc b"] a b by simp
  have keep: "\<And>v w. shaped self (sc[Suc a := (sc ! Suc a)[Suc b := v]],
                                 tb[Suc a := (tb ! Suc a)[Suc b := w]])"
    using gs bt a by (simp add: shaped_def grid_update border_update)
  from cell_candidates_cases[OF gs a b] show ?thesis
  proof (elim disjE conjE exE)
    assume "cell_candidates self sc (int (Suc a)) (int (Suc b)) = Inl KeyError"
      and bad: "\<not> (seq1 self ! a \<in> dict_keys svals \<and> seq2 self ! b \<in> dict_keys svals)"
    then show ?thesis by (simp add: fill_cell_def g)
  next
    fix t
    assume t: "cell_candidates self sc (int (Suc a)) (int (Suc b)) = Inr t"
      and ok: "seq1 self ! a \<in> dict_keys svals" "seq2 self ! b \<in> dict_keys svals"
    obtain s_diag s_up s_left where "t = (s_diag, s_up, s_left)" by (cases t)
    with t have "\<exists>g'. fill_cell self (int (Suc a)) (int (Suc b)) g = Inr g' \<and> shaped self g'"
      unfolding fill_cell_def g by (simp add: st_tb st_sc keep del: of_nat_Suc)
    with ok show ?thesis by simp
  qed
qed


lemma fill_row_unfold:
  "fill_row self i g = for_each [0..<length (seq2 self)] (\<lambda>b. fill_cell self i (int (Suc b))) g"
  by (simp add: fill_row_def py_range_1 for_each_map)

lemma fill_unfold:
  "fill self g = for_each [0..<length (seq1 self)] (\<lambda>a. fill_row self (int (Suc a))) g"
  by (simp add: fill_def py_range_1 for_each_map)

lemma fill_row_weak:
  assumes "shaped self g" and "a < length (seq1 self)"
  shows "fill_row self (int (Suc a)) g = Inl KeyError \<or>
         (\<exists>g'. fill_row self (int (Suc a)) g = Inr g' \<and> shaped self g')"
  unfolding fill_row_unfold
  by (rule for_each_weak[where Q = "shaped self", OF assms(1)])
     (use fill_cell_cases[OF _ assms(2)] in auto)

lemma fill_row_ok:
  assumes "shaped self g" and "a < length (seq1 self)"
    and "seq1 self ! a \<in> dict_keys svals" and "set (seq2 self) \<subseteq> dict_keys svals"
  shows "\<exists>g'. fill_row self (int (Suc a)) g = Inr g' \<and> shaped self g'"
  unfolding fill_row_unfold
proof (rule for_each_inv[where Q = "shaped self", OF assms(1)])
  fix b s
  assume b: "b \<in> set [0..<length (seq2 self)]" and s: "shaped self s"
  from b have b': "b < length (seq2 self)" by simp
  with assms(4) have "seq2 self ! b \<in> dict_keys svals" by (auto dest: nth_mem)
  with fill_cell_cases[OF s assms(2) b'] assms(3)
  show "\<exists>s'. fill_cell self (int (Suc a)) (int (Suc b)) s = Inr s' \<and> shaped self s'"
    by auto
qed

lemma fill_row_bad:
  assumes "shaped self g" and a: "a < length (seq1 self)"
    and ne: "seq2 self \<noteq> []"
    and bad: "seq1 self ! a \<notin> dict_keys svals \<or> \<not> set (seq2 self) \<subseteq> dict_keys svals"
  shows "fill_row self (int (Suc a)) g = Inl KeyError"
proof -
  from bad ne obtain b0 where b0: "b0 < length (seq2 self)"
    and nk: "\<not> (seq1 self ! a \<in> dict_keys svals \<and> seq2 self ! b0 \<in> dict_keys svals)"
    by (metis in_set_conv_nth length_greater_0_conv subsetI)
  show ?thesis
    unfolding fill_row_unfold
  proof (rule for_each_fails[where Q = "shaped self" and ?x0.0 = b0, OF assms(1)])
    show "b0 \<in> set [0..<length (seq2 self)]" using b0 by simp
  next
    fix s
    assume "shaped self s"
    from fill_cell_cases[OF this a b0] nk
    show "fill_cell self (int (Suc a)) (int (Suc b0)) s = Inl KeyError"
      by blast
  next
    fix b s
    assume "b \<in> set [0..<length (seq2 self)]" and "shaped self s"
    with fill_cell_cases[OF _ a, of s b]
    show "fill_cell self (int (Suc a)) (int (Suc b)) s = Inl KeyError \<or>
          (\<exists>s'. fill_cell self (int (Suc a)) (int (Suc b)) s = Inr s' \<and> shaped self s')"
      by auto
  qed
qed

lemma for_each_skip:
  assumes "\<And>x s. x \<in> set xs \<Longrightarrow> body x s = Inr s"
  shows "for_each xs body s = Inr s"
  using assms by (induction xs) simp_all

lemma fill_cases:
  assumes sh: "shaped self g"
  shows "fill self g = Inl KeyError \<and> raises self \<or>
         (\<exists>g'. fill self g = Inr g' \<and> shaped self g') \<and> \<not> raises self"
proof (cases "raises self")
  case True
  then have ne1: "seq1 self \<noteq> []" and ne2: "seq2 self \<noteq> []"
    and nk: "\<not> set (seq1 self) \<union> set (seq2 self) \<subseteq> dict_keys svals"
    by (simp_all add: raises_def)
  from nk ne1 obtain a0 where a0: "a0 < length (seq1 self)"
    and bad: "seq1 self ! a0 \<notin> dict_keys svals \<or> \<not> set (seq2 self) \<subseteq> dict_keys svals"
    by (metis Un_subset_iff in_set_conv_nth length_greater_0_conv subsetI)
  have "fill self g = Inl KeyError"
    unfolding fill_unfold
  proof (rule for_each_fails[where Q = "shaped self" and ?x0.0 = a0, OF sh])
    show "a0 \<in> set [0..<length (seq1 self)]" using a0 by simp
  next
    fix s
    assume "shaped self s"
    from fill_row_bad[OF this a0 ne2 bad]
    show "fill_row self (int (Suc a0)) s = Inl KeyError" .
  next
    fix a s
    assume "a \<in> set [0..<length (seq1 self)]" and "shaped self s"
    then show "fill_row self (int (Suc a)) s = Inl KeyError \<or>
          (\<exists>s'. fill_row self (int (Suc a)) s = Inr s' \<and> shaped self s')"
      using fill_row_weak[of self s a] by simp
  qed
  with True show ?thesis by simp
next
  case False
  have "\<exists>g'. fill self g = Inr g' \<and> shaped self g'"
  proof (cases "seq2 self = []")
    case True
    then have "fill self g = Inr g"
      unfolding fill_unfold by (intro for_each_skip) (simp add: fill_row_unfold)
    with sh show ?thesis by simp
  next
    case ne2: False
    show ?thesis
    proof (cases "seq1 self = []")
      case True
      then have "fill self g = Inr g" by (simp add: fill_unfold)
      with sh show ?thesis by simp
    next
      case ne1: False
      with ne2 False have k1: "set (seq1 self) \<subseteq> dict_keys svals"
        and k2: "set (seq2 self) \<subseteq> dict_keys svals"
        by (simp_all add: raises_def)
      show ?thesis
        unfolding fill_unfold
      proof (rule for_each_inv[where Q = "shaped self", OF sh])
        fix a s
        assume a: "a \<in> set [0..<length (seq1 self)]" and s: "shaped self s"
        from a have a': "a < length (seq1 self)" by simp
        with k1 have "seq1 self ! a \<in> dict_keys svals" by (auto dest: nth_mem)
        from fill_row_ok[OF s a' this k2]
        show "\<exists>s'. fill_row self (int (Suc a)) s = Inr s' \<and> shaped self s'" .
      qed
    qed
  qed
  with False show ?thesis by simp
qed

section \<open>The traceback walk\<close>

lemma trail_Nil: "trail s 0 [] []"
  by (simp add: trail_def)

lemma trail_gap: "trail s a B Y \<Longrightarrow> trail s a (CHR ''-'' # B) (- 1 # Y)"
  by (simp add: trail_def)

lemma trail_base: "trail s a B Y \<Longrightarrow> a < length s \<Longrightarrow> trail s (Suc a) (s ! a # B) (int a # Y)"
  by (simp add: trail_def)

lemma traceback_ok:
  assumes bt: "border (length s1) (length s2) tb"
  shows "a \<le> length s1 \<Longrightarrow> b \<le> length s2 \<Longrightarrow>
     \<exists>B1 B2 Y1 Y2.
       traceback s1 s2 tb (int a) (int b) (A1, A2, X1, X2) =
         Inr (A1 @ B1, A2 @ B2, X1 @ Y1, X2 @ Y2) \<and>
       trail s1 a B1 Y1 \<and> trail s2 b B2 Y2 \<and> length B1 = length B2"
proof (induction "a + b" arbitrary: a b A1 A2 X1 X2 rule: less_induct)
  case less
  note gt = border_grid[OF bt]
  show ?case
  proof (cases "a = 0 \<and> b = 0")
    case True
    then have a0: "a = 0" and b0: "b = 0" by simp_all
    have "traceback s1 s2 tb (int a) (int b) (A1, A2, X1, X2) = Inr (A1, A2, X1, X2)"
      unfolding a0 b0 by (rule trans[OF traceback.simps]) (simp del: traceback.simps)
    with True show ?thesis
      using trail_Nil[of s1] trail_Nil[of s2] by (intro exI[of _ "[]"]) simp
  next
    case False
    have cell: "py_index2 tb (int a) (int b) = Inr (tb ! a ! b)"
      using grid_index2[OF gt less.prems] .
    have row0: "a = 0 \<Longrightarrow> tb ! a ! b = Pu"
    proof -
      assume a0: "a = 0"
      with False obtain b' where "b = Suc b'" by (cases b) auto
      with less.prems(2) bt a0 show ?thesis by (simp add: border_def)
    qed
    have col0: "b = 0 \<Longrightarrow> tb ! a ! b = Pl"
    proof -
      assume b0: "b = 0"
      with False obtain a' where "a = Suc a'" by (cases a) auto
      with less.prems(1) bt b0 show ?thesis by (simp add: border_def)
    qed
    consider (d) "tb ! a ! b = Pd" | (u) "tb ! a ! b = Pu"
      | (l) "tb ! a ! b \<noteq> Pd" "tb ! a ! b \<noteq> Pu"
      by blast
    then show ?thesis
    proof cases
      case d
      with row0 col0 obtain a' b' where a: "a = Suc a'" and b: "b = Suc b'"
        by (cases a; cases b) auto
      from a b less.prems have a': "a' < length s1" and b': "b' < length s2" by simp_all
      note i1 = py_index_nat[OF a']
      note i2 = py_index_nat[OF b']
      have ia: "int a - 1 = int a'" and ib: "int b - 1 = int b'" using a b by simp_all
      have step: "traceback s1 s2 tb (int a) (int b) (A1, A2, X1, X2) =
          traceback s1 s2 tb (int a') (int b')
            (A1 @ [s1 ! a'], A2 @ [s2 ! b'], X1 @ [int a'], X2 @ [int b'])"
        by (rule trans[OF traceback.simps]) (simp add: cell d i1 i2 False ia ib del: of_nat_Suc traceback.simps)
      from less.hyps[of a' b' "A1 @ [s1 ! a']" "A2 @ [s2 ! b']" "X1 @ [int a']" "X2 @ [int b']"]
        a b a' b'
      obtain B1 B2 Y1 Y2 where
        r: "traceback s1 s2 tb (int a') (int b')
              (A1 @ [s1 ! a'], A2 @ [s2 ! b'], X1 @ [int a'], X2 @ [int b']) =
            Inr ((A1 @ [s1 ! a']) @ B1, (A2 @ [s2 ! b']) @ B2,
                 (X1 @ [int a']) @ Y1, (X2 @ [int b']) @ Y2)"
        and t1: "trail s1 a' B1 Y1" and t2: "trail s2 b' B2 Y2" and len: "length B1 = length B2"
        by auto
      show ?thesis
        using step r trail_base[OF t1 a'] trail_base[OF t2 b'] len a b
        by (intro exI[of _ "s1 ! a' # B1"] exI[of _ "s2 ! b' # B2"]
                  exI[of _ "int a' # Y1"] exI[of _ "int b' # Y2"]) simp
    next
      case u
      with col0 obtain b' where b: "b = Suc b'" by (cases b) auto
      from b less.prems have b': "b' < length s2" by simp
      note i2 = py_index_nat[OF b']
      have ib: "int b - 1 = int b'" using b by simp
      have step: "traceback s1 s2 tb (int a) (int b) (A1, A2, X1, X2) =
          traceback s1 s2 tb (int a) (int b')
            (A1 @ [CHR ''-''], A2 @ [s2 ! b'], X1 @ [- 1], X2 @ [int b'])"
        by (rule trans[OF traceback.simps]) (simp add: cell u i2 False ib del: of_nat_Suc traceback.simps)
      from less.hyps[of a b' "A1 @ [CHR ''-'']" "A2 @ [s2 ! b']" "X1 @ [- 1]" "X2 @ [int b']"]
        b b' less.prems(1)
      obtain B1 B2 Y1 Y2 where
        r: "traceback s1 s2 tb (int a) (int b')
              (A1 @ [CHR ''-''], A2 @ [s2 ! b'], X1 @ [- 1], X2 @ [int b']) =
            Inr ((A1 @ [CHR ''-'']) @ B1, (A2 @ [s2 ! b']) @ B2,
                 (X1 @ [- 1]) @ Y1, (X2 @ [int b']) @ Y2)"
        and t1: "trail s1 a B1 Y1" and t2: "trail s2 b' B2 Y2" and len: "length B1 = length B2"
        by auto
      show ?thesis
        using step r trail_gap[OF t1] trail_base[OF t2 b'] len b
        by (intro exI[of _ "CHR ''-'' # B1"] exI[of _ "s2 ! b' # B2"]
                  exI[of _ "- 1 # Y1"] exI[of _ "int b' # Y2"]) simp
    next
      case l
      with row0 obtain a' where a: "a = Suc a'" by (cases a) auto
      from a less.prems have a': "a' < length s1" by simp
      note i1 = py_index_nat[OF a']
      have ia: "int a - 1 = int a'" using a by simp
      have step: "traceback s1 s2 tb (int a) (int b) (A1, A2, X1, X2) =
          traceback s1 s2 tb (int a') (int b)
            (A1 @ [s1 ! a'], A2 @ [CHR ''-''], X1 @ [int a'], X2 @ [- 1])"
        by (rule trans[OF traceback.simps]) (simp add: cell l i1 False ia del: of_nat_Suc traceback.simps)
      from less.hyps[of a' b "A1 @ [s1 ! a']" "A2 @ [CHR ''-'']" "X1 @ [int a']" "X2 @ [- 1]"]
        a a' less.prems(2)
      obtain B1 B2 Y1 Y2 where
        r: "traceback s1 s2 tb (int a') (int b)
              (A1 @ [s1 ! a'], A2 @ [CHR ''-''], X1 @ [int a'], X2 @ [- 1]) =
            Inr ((A1 @ [s1 ! a']) @ B1, (A2 @ [CHR ''-'']) @ B2,
                 (X1 @ [int a']) @ Y1, (X2 @ [- 1]) @ Y2)"
        and t1: "trail s1 a' B1 Y1" and t2: "trail s2 b B2 Y2" and len: "length B1 = length B2"
        by auto
      show ?thesis
        using step r trail_base[OF t1 a'] trail_gap[OF t2] len a
        by (intro exI[of _ "s1 ! a' # B1"] exI[of _ "CHR ''-'' # B2"]
                  exI[of _ "int a' # Y1"] exI[of _ "- 1 # Y2"]) simp
    qed
  qed
qed

section \<open>The gap-marking loop\<close>

lemma length_marked [simp]: "length (marked g xs) = length xs"
  by (induction xs arbitrary: g) simp_all

lemma mark_step_head:
  assumes "length P1 = k" and "length P2 = k"
  shows "mark_step (int k) (P1 @ x # R1, P2 @ y # R2, g1, g2) =
     Inr ((P1 @ [if x = - 1 then g1 else x]) @ R1, (P2 @ [if y = - 1 then g2 else y]) @ R2,
          (if x = - 1 then g1 else g1 - 1), (if y = - 1 then g2 else g2 - 1))"
proof -
  have i1: "py_index (P1 @ x # R1) (int k) = Inr x"
    using py_index_nat[of k "P1 @ x # R1"] assms(1) by (simp add: nth_append)
  have i2: "py_index (P2 @ y # R2) (int k) = Inr y"
    using py_index_nat[of k "P2 @ y # R2"] assms(2) by (simp add: nth_append)
  have s1: "\<And>z. py_store (P1 @ z # R1) (int k) g1 = Inr (P1 @ g1 # R1)"
    using py_store_nat[of k "P1 @ _ # R1" g1] assms(1) by (simp add: list_update_append)
  have s2: "\<And>z. py_store (P2 @ z # R2) (int k) g2 = Inr (P2 @ g2 # R2)"
    using py_store_nat[of k "P2 @ _ # R2" g2] assms(2) by (simp add: list_update_append)
  show ?thesis
    by (simp add: mark_step_def i1 i2 s1 s2)
qed

lemma mark_loop:
  assumes "length R1 = length R2"
  shows "length P1 = k \<Longrightarrow> length P2 = k \<Longrightarrow>
     \<exists>g1' g2'. for_each (map int [k..<k + length R1]) mark_step (P1 @ R1, P2 @ R2, g1, g2) =
        Inr (P1 @ marked g1 R1, P2 @ marked g2 R2, g1', g2')"
  using assms
proof (induction R1 R2 arbitrary: P1 P2 k g1 g2 rule: list_induct2)
  case Nil
  then show ?case by simp
next
  case (Cons x R1 y R2)
  have rng: "[k..<k + length (x # R1)] = k # [Suc k..<Suc k + length R1]"
    by (simp add: upt_conv_Cons del: upt_Suc)
  let ?x = "if x = - 1 then g1 else x" and ?y = "if y = - 1 then g2 else y"
  let ?g1 = "if x = - 1 then g1 else g1 - 1" and ?g2 = "if y = - 1 then g2 else g2 - 1"
  from Cons.IH[of "P1 @ [?x]" "Suc k" "P2 @ [?y]" ?g1 ?g2] Cons.prems
  obtain g1' g2' where
    "for_each (map int [Suc k..<Suc k + length R1]) mark_step
       ((P1 @ [?x]) @ R1, (P2 @ [?y]) @ R2, ?g1, ?g2) =
     Inr ((P1 @ [?x]) @ marked ?g1 R1, (P2 @ [?y]) @ marked ?g2 R2, g1', g2')"
    by auto
  then have "for_each (map int [k..<k + length (x # R1)]) mark_step
       (P1 @ x # R1, P2 @ y # R2, g1, g2) =
     Inr (P1 @ marked g1 (x # R1), P2 @ marked g2 (y # R2), g1', g2')"
    unfolding rng using mark_step_head[OF Cons.prems, of x R1 y R2 g1 g2]
    by (simp del: upt_Suc append_assoc add: append_assoc[symmetric]) 
  then show ?case by blast
qed

lemma mark_gaps_marked:
  assumes "length ix1 = length ix2"
  shows "mark_gaps ix1 ix2 = Inr (marked (- 1) ix1, marked (- 1) ix2)"
proof -
  from mark_loop[OF assms, of "[]" 0 "[]" "- 1" "- 1"]
  obtain g1' g2' where
    "for_each (map int [0..<length ix1]) mark_step (ix1, ix2, - 1, - 1) =
       Inr (marked (- 1) ix1, marked (- 1) ix2, g1', g2')"
    by auto
  then show ?thesis by (simp add: mark_gaps_def py_range_0)
qed

lemma filter_marked:
  "g < 0 \<Longrightarrow> filter (\<lambda>k. 0 \<le> k) (marked g xs) = filter (\<lambda>k. 0 \<le> k) xs"
  by (induction xs arbitrary: g) simp_all

lemma marked_nonneg:
  "g < 0 \<Longrightarrow> c < length xs \<Longrightarrow> 0 \<le> marked g xs ! c \<Longrightarrow> marked g xs ! c = xs ! c"
proof (induction xs arbitrary: g c)
  case Nil
  then show ?case by simp
next
  case (Cons x xs)
  show ?case
  proof (cases c)
    case 0
    with Cons.prems show ?thesis by (simp split: if_splits)
  next
    case (Suc c')
    with Cons.prems Cons.IH[of g c'] Cons.IH[of "g - 1" c'] show ?thesis
      by (simp split: if_splits)
  qed
qed

lemma marked_gap:
  assumes "\<forall>x \<in> set xs. x = - 1 \<or> 0 \<le> x"
  shows "g < 0 \<Longrightarrow> c < length xs \<Longrightarrow> marked g xs ! c < 0 \<Longrightarrow>
     marked g xs ! c = g - int (length (filter (\<lambda>k. 0 \<le> k) (take c (marked g xs))))"
  using assms
proof (induction xs arbitrary: g c)
  case Nil
  then show ?case by simp
next
  case (Cons x xs)
  show ?case
  proof (cases c)
    case 0
    with Cons.prems show ?thesis by (auto split: if_splits)
  next
    case (Suc c')
    show ?thesis
    proof (cases "x = - 1")
      case True
      with Suc Cons.prems Cons.IH[of g c'] show ?thesis by simp
    next
      case False
      with Cons.prems(4) have "0 \<le> x" by simp
      with False Suc Cons.prems Cons.IH[of "g - 1" c'] show ?thesis by simp
    qed
  qed
qed

lemma trail_length: "trail s a B Y \<Longrightarrow> length B = length Y"
  by (simp add: trail_def)

lemma trail_filter:
  "trail s a B Y \<Longrightarrow> filter (\<lambda>k. 0 \<le> k) (rev Y) = map int [0..<a]"
  by (simp add: trail_def rev_filter[symmetric] del: rev_filter)

lemma trail_rev_nth:
  assumes "trail s a B Y" and "i < length Y"
  shows "rev Y ! i = - 1 \<and> rev B ! i = CHR ''-'' \<or>
         0 \<le> rev Y ! i \<and> nat (rev Y ! i) < length s \<and> rev B ! i = s ! nat (rev Y ! i)"
proof -
  from assms have len: "length B = length Y" by (simp add: trail_def)
  with assms(2) have "(rev B ! i, rev Y ! i) \<in> set (zip (rev B) (rev Y))"
    by (auto simp: in_set_zip)
  also have "set (zip (rev B) (rev Y)) = set (zip B Y)"
    using len by (simp add: zip_rev)
  finally show ?thesis using assms(1) by (auto simp: trail_def)
qed

lemma trail_entries:
  assumes "trail s a B Y"
  shows "\<forall>k \<in> set (rev Y). k = - 1 \<or> 0 \<le> k"
proof
  fix k
  assume "k \<in> set (rev Y)"
  then obtain i where "i < length Y" "rev Y ! i = k"
    by (metis in_set_conv_nth length_rev)
  with trail_rev_nth[OF assms, of i] show "k = - 1 \<or> 0 \<le> k" by auto
qed

section \<open>The structure of a run of doAlignment\<close>

lemma doAlignment_cases:
  "doAlignment self = Inl KeyError \<and> raises self \<or>
   \<not> raises self \<and>
   (\<exists>B1 B2 Y1 Y2 sc.
      doAlignment self =
        Inr (self\<lparr>score := sc, seq1aligned := rev B1, seq2aligned := rev B2,
                  seq1indexed := marked (- 1) (rev Y1), seq2indexed := marked (- 1) (rev Y2)\<rparr>) \<and>
      trail (seq1 self) (length (seq1 self)) B1 Y1 \<and>
      trail (seq2 self) (length (seq2 self)) B2 Y2 \<and> length B1 = length B2)"
proof -
  let ?n = "length (seq1 self)" and ?m = "length (seq2 self)"
  from init_tracebk_border[OF grid_new_tracebk, of ?n ?m] obtain tb where
    it: "init_tracebk (int ?n) (int ?m) (new_tracebk (int ?n) (int ?m)) = Inr tb"
    and bt: "border ?n ?m tb"
    by blast
  have sh: "shaped self (new_scores (int ?n) (int ?m), tb)"
    using bt by (simp add: shaped_def grid_new_scores)
  from fill_cases[OF sh] show ?thesis
  proof (elim disjE conjE exE)
    assume "fill self (new_scores (int ?n) (int ?m), tb) = Inl KeyError" and r: "raises self"
    then have "doAlignment self = Inl KeyError"
      by (simp add: doAlignment_def Let_def it)
    with r show ?thesis by simp
  next
    fix g'
    assume f: "fill self (new_scores (int ?n) (int ?m), tb) = Inr g'"
      and sh': "shaped self g'" and nr: "\<not> raises self"
    obtain sc' tb' where g': "g' = (sc', tb')" by (cases g')
    from sh' g' have gs: "grid ?n ?m sc'" and bt': "border ?n ?m tb'"
      by (simp_all add: shaped_def)
    have sc: "py_index2 sc' (int ?n) (int ?m) = Inr (sc' ! ?n ! ?m)"
      using grid_index2[OF gs, of ?n ?m] by simp
    from traceback_ok[OF bt', of ?n ?m "[]" "[]" "[]" "[]"] obtain B1 B2 Y1 Y2 where
      tr: "traceback (seq1 self) (seq2 self) tb' (int ?n) (int ?m) ([], [], [], []) =
             Inr (B1, B2, Y1, Y2)"
      and t1: "trail (seq1 self) ?n B1 Y1" and t2: "trail (seq2 self) ?m B2 Y2"
      and len: "length B1 = length B2"
      by auto
    have "length (rev Y1) = length (rev Y2)"
      using trail_length[OF t1] trail_length[OF t2] len by simp
    note mg = mark_gaps_marked[OF this]
    have "doAlignment self =
        Inr (self\<lparr>score := sc' ! ?n ! ?m, seq1aligned := rev B1, seq2aligned := rev B2,
                  seq1indexed := marked (- 1) (rev Y1), seq2indexed := marked (- 1) (rev Y2)\<rparr>)"
      by (simp add: doAlignment_def Let_def it f g' sc tr mg del: traceback.simps)
    with nr t1 t2 len show ?thesis by blast
  qed
qed

lemma doAlignment_Inr:
  assumes "doAlignment self = Inr self'"
  obtains B1 B2 Y1 Y2 where
    "seq1 self' = seq1 self" "seq2 self' = seq2 self"
    "seq1aligned self' = rev B1" "seq2aligned self' = rev B2"
    "seq1indexed self' = marked (- 1) (rev Y1)" "seq2indexed self' = marked (- 1) (rev Y2)"
    "trail (seq1 self) (length (seq1 self)) B1 Y1"
    "trail (seq2 self) (length (seq2 self)) B2 Y2" "length B1 = length B2"
  using doAlignment_cases[of self] assms by auto

text \<open>What one index array and its aligned sequence satisfy after a run.\<close>

lemma marked_round_trip:
  assumes t: "trail s a B Y" and c: "c < length Y" and nn: "0 \<le> marked (- 1) (rev Y) ! c"
  shows "c < length (rev B) \<and> nat (marked (- 1) (rev Y) ! c) < length s \<and>
         rev B ! c = s ! nat (marked (- 1) (rev Y) ! c)"
proof -
  have eq: "marked (- 1) (rev Y) ! c = rev Y ! c"
    using marked_nonneg[of "- 1" c "rev Y"] c nn by simp
  with trail_rev_nth[OF t c] nn trail_length[OF t] c show ?thesis by auto
qed

lemma marked_sentinel:
  assumes t: "trail s a B Y" and c: "c < length Y" and neg: "marked (- 1) (rev Y) ! c < 0"
  shows "marked (- 1) (rev Y) ! c =
         - 1 - int (length (filter (\<lambda>k. 0 \<le> k) (take c (marked (- 1) (rev Y)))))"
  using marked_gap[OF trail_entries[OF t], of "- 1" c] c neg by simp

lemma sentinel_run:
  fixes ix :: "int list"
  assumes f: "\<forall>c < length ix. ix ! c < 0 \<longrightarrow>
                ix ! c = - 1 - int (length (filter (\<lambda>k. 0 \<le> k) (take c ix)))"
    and c: "Suc c < length ix" and n0: "ix ! c < 0" and n1: "ix ! Suc c < 0"
  shows "ix ! Suc c = ix ! c"
proof -
  have "take (Suc c) ix = take c ix @ [ix ! c]"
    using c by (simp add: take_Suc_conv_app_nth)
  with n0 have "filter (\<lambda>k. 0 \<le> k) (take (Suc c) ix) = filter (\<lambda>k. 0 \<le> k) (take c ix)"
    by simp
  with f c n0 n1 show ?thesis by (metis Suc_lessD)
qed


lemma fill_raises:
  assumes "raises self"
  shows "\<exists>tb. init_tracebk (int (length (seq1 self))) (int (length (seq2 self)))
               (new_tracebk (int (length (seq1 self))) (int (length (seq2 self)))) = Inr tb \<and>
              fill self (new_scores (int (length (seq1 self))) (int (length (seq2 self))), tb) =
                Inl KeyError"
proof -
  let ?n = "length (seq1 self)" and ?m = "length (seq2 self)"
  from init_tracebk_border[OF grid_new_tracebk, of ?n ?m] obtain tb where
    it: "init_tracebk (int ?n) (int ?m) (new_tracebk (int ?n) (int ?m)) = Inr tb"
    and bt: "border ?n ?m tb"
    by blast
  have "shaped self (new_scores (int ?n) (int ?m), tb)"
    using bt by (simp add: shaped_def grid_new_scores)
  from fill_cases[OF this] assms it show ?thesis by auto
qed

section \<open>The subscores of a cell\<close>

text \<open>
  C1 (as stated in the specification): at a cell \<open>(i, j)\<close> of the fill the gap penalty of
  the \<open>up\<close> subscore is waived exactly when \<open>j\<close> is the last column and that of the
  \<open>left\<close> subscore exactly when \<open>i\<close> is the last row. The code pairs them the other way
  round. At the first cell \<open>(1, 1)\<close> of the fill for \<open>seq1 = "AC"\<close>, \<open>seq2 = "A"\<close>, where
  \<open>scores[1][0]\<close> and \<open>scores[0][1]\<close> are \<open>0\<close>, the subscores are \<open>(6, -6, 0)\<close>. The
  stated rule would give \<open>sup = 0\<close> (last column, waived) and \<open>sleft = -6\<close> (not the last
  row, penalised): the last two conjuncts say that neither holds.
\<close>

theorem C1_counterexample:
  "cell_candidates (setSequences init ''AC'' ''A'') (new_scores 2 1) 1 1 = Inr (6, - 6, 0) \<and>
   py_index2 (new_scores 2 1) 1 (1 - 1) = Inr 0 \<and>
   py_index2 (new_scores 2 1) (1 - 1) 1 = Inr 0 \<and>
   \<not> (- 6 = (if (1 :: int) = int (length (seq2 (setSequences init ''AC'' ''A''))) then (0 :: int)
               else 0 + gapp (setSequences init ''AC'' ''A''))) \<and>
   \<not> (0 = (if (1 :: int) = int (length (seq1 (setSequences init ''AC'' ''A''))) then (0 :: int)
             else 0 + gapp (setSequences init ''AC'' ''A'')))"
  by code_simp

text \<open>
  C1 (amended): whenever the subscores of cell \<open>(i, j)\<close> are computed, \<open>sup\<close> is
  \<open>scores[i][j-1]\<close> plus the gap penalty, with the penalty waived exactly when \<open>i\<close> is
  the length of \<open>seq1\<close> (last row), and \<open>sleft\<close> is \<open>scores[i-1][j]\<close> plus the gap penalty,
  with the penalty waived exactly when \<open>j\<close> is the length of \<open>seq2\<close> (last column).
\<close>

theorem C1_end_gaps:
  assumes "cell_candidates self scores i j = Inr (s_diag, s_up, s_left)"
  shows "\<exists>u0 l0. py_index2 scores i (j - 1) = Inr u0 \<and> py_index2 scores (i - 1) j = Inr l0 \<and>
           s_up = (if i = int (length (seq1 self)) then u0 else u0 + gapp self) \<and>
           s_left = (if j = int (length (seq2 self)) then l0 else l0 + gapp self)"
proof -
  from assms obtain u0 l0 where u: "py_index2 scores i (j - 1) = Inr u0"
    and l: "py_index2 scores (i - 1) j = Inr l0"
    and s_up: "s_up = (if i = int (length (seq1 self)) then u0 + gapp self - gapp self
                       else u0 + gapp self)"
    and s_left: "s_left = (if j = int (length (seq2 self)) then l0 + gapp self - gapp self
                           else l0 + gapp self)"
    by (auto simp: cell_candidates_def and_then_eq_Inr Let_def)
  from s_up have "s_up = (if i = int (length (seq1 self)) then u0 else u0 + gapp self)"
    by simp
  moreover from s_left have "s_left = (if j = int (length (seq2 self)) then l0 else l0 + gapp self)"
    by simp
  ultimately show ?thesis using u l by blast
qed

theorem C1_end_gaps_witness:
  "cell_candidates (setSequences init ''AC'' ''A'') (new_scores 2 1) 1 1 = Inr (6, - 6, 0) \<and>
   (\<exists>u0 l0. py_index2 (new_scores 2 1) 1 (1 - 1) = Inr u0 \<and>
            py_index2 (new_scores 2 1) (1 - 1) 1 = Inr l0 \<and>
            - 6 = (if 1 = int (length (seq1 (setSequences init ''AC'' ''A''))) then u0
                   else u0 + gapp (setSequences init ''AC'' ''A'')) \<and>
            0 = (if 1 = int (length (seq2 (setSequences init ''AC'' ''A''))) then l0
                 else l0 + gapp (setSequences init ''AC'' ''A'')))"
proof -
  have h: "cell_candidates (setSequences init ''AC'' ''A'') (new_scores 2 1) 1 1 = Inr (6, - 6, 0)"
    by code_simp
  from C1_end_gaps[OF h] h show ?thesis by simp
qed

section \<open>Maximum and direction of a cell\<close>

text \<open>
  C4: when a cell \<open>(i, j)\<close> has been filled, the score stored there is the maximum of the
  three subscores, and the pointer stored there follows the priority diagonal, up, left:
  \<open>'d'\<close> whenever the diagonal subscore ties with or beats both others, \<open>'u'\<close> when the up
  subscore exceeds the diagonal one and ties with or beats the left one, \<open>'l'\<close> only when
  the left subscore exceeds both.
\<close>

theorem C4_max_and_priority:
  assumes "cell_candidates self scores i j = Inr (s_diag, s_up, s_left)"
    and "fill_cell self i j (scores, tracebk) = Inr (scores', tracebk')"
  shows "py_index2 scores' i j = Inr (max s_diag (max s_up s_left)) \<and>
         (s_up \<le> s_diag \<and> s_left \<le> s_diag \<longrightarrow> py_index2 tracebk' i j = Inr Pd) \<and>
         (s_diag < s_up \<and> s_left \<le> s_up \<longrightarrow> py_index2 tracebk' i j = Inr Pu) \<and>
         (s_diag < s_left \<and> s_up < s_left \<longrightarrow> py_index2 tracebk' i j = Inr Pl)"
  using assms
  by (auto simp: fill_cell_def and_then_eq_Inr split: if_splits dest!: py_store2_then_index2)

text \<open>
  The witness fills one real cell for each direction: \<open>"A"\<close> against \<open>"W"\<close> (all three
  subscores tie at 0), \<open>"A"\<close> against \<open>"C"\<close> (up and left tie above the diagonal), and the
  cell \<open>(2, 1)\<close> of \<open>"AC"\<close> against \<open>"A"\<close> (left exceeds both).
\<close>

theorem C4_max_and_priority_witness:
  "cell_candidates (setSequences init ''A'' ''W'') (new_scores 1 1) 1 1 = Inr (0, 0, 0) \<and>
   fill_cell (setSequences init ''A'' ''W'') 1 1 (new_scores 1 1, [[P0, Pu], [Pl, P0]]) =
     Inr ([[0, 0], [0, 0]], [[P0, Pu], [Pl, Pd]]) \<and>
   py_index2 [[0, 0], [0, 0 :: int]] 1 1 = Inr 0 \<and>
   py_index2 [[P0, Pu], [Pl, Pd]] 1 1 = Inr Pd \<and>
   cell_candidates (setSequences init ''A'' ''C'') (new_scores 1 1) 1 1 = Inr (- 6, 0, 0) \<and>
   fill_cell (setSequences init ''A'' ''C'') 1 1 (new_scores 1 1, [[P0, Pu], [Pl, P0]]) =
     Inr ([[0, 0], [0, 0]], [[P0, Pu], [Pl, Pu]]) \<and>
   py_index2 [[P0, Pu], [Pl, Pu]] 1 1 = Inr Pu \<and>
   cell_candidates (setSequences init ''AC'' ''A'') [[0, 0], [0, 6], [0, 0]] 2 1 = Inr (- 6, 0, 6) \<and>
   fill_cell (setSequences init ''AC'' ''A'') 2 1 ([[0, 0], [0, 6], [0, 0]], [[P0, Pu], [Pl, Pd], [Pl, P0]]) =
     Inr ([[0, 0], [0, 6], [0, 6]], [[P0, Pu], [Pl, Pd], [Pl, Pl]]) \<and>
   py_index2 [[0, 0], [0, 6], [0, 6 :: int]] 2 1 = Inr 6 \<and>
   py_index2 [[P0, Pu], [Pl, Pd], [Pl, Pl]] 2 1 = Inr Pl"
proof -
  have c1: "cell_candidates (setSequences init ''A'' ''W'') (new_scores 1 1) 1 1 = Inr (0, 0, 0)"
    by code_simp
  have f1: "fill_cell (setSequences init ''A'' ''W'') 1 1 (new_scores 1 1, [[P0, Pu], [Pl, P0]]) =
     Inr ([[0, 0], [0, 0]], [[P0, Pu], [Pl, Pd]])"
    by code_simp
  have c2: "cell_candidates (setSequences init ''A'' ''C'') (new_scores 1 1) 1 1 = Inr (- 6, 0, 0)"
    by code_simp
  have f2: "fill_cell (setSequences init ''A'' ''C'') 1 1 (new_scores 1 1, [[P0, Pu], [Pl, P0]]) =
     Inr ([[0, 0], [0, 0]], [[P0, Pu], [Pl, Pu]])"
    by code_simp
  have c3: "cell_candidates (setSequences init ''AC'' ''A'') [[0, 0], [0, 6], [0, 0]] 2 1 =
     Inr (- 6, 0, 6)"
    by code_simp
  have f3: "fill_cell (setSequences init ''AC'' ''A'') 2 1
       ([[0, 0], [0, 6], [0, 0]], [[P0, Pu], [Pl, Pd], [Pl, P0]]) =
     Inr ([[0, 0], [0, 6], [0, 6]], [[P0, Pu], [Pl, Pd], [Pl, Pl]])"
    by code_simp
  from C4_max_and_priority[OF c1 f1] C4_max_and_priority[OF c2 f2] C4_max_and_priority[OF c3 f3]
    c1 f1 c2 f2 c3 f3
  show ?thesis by simp
qed

section \<open>setSequences\<close>

text \<open>
  C5 (as stated in the specification): after \<open>setSequences\<close> the accessors no longer
  return the results of the previous run. They do: the state left by aligning \<open>"A"\<close> with
  \<open>"A"\<close> still answers \<open>("A", "A")\<close>, \<open>([0], [0])\<close> and \<open>6\<close> after
  \<open>setSequences("C", "GG")\<close>.
\<close>

theorem C5_counterexample:
  "doAlignment (setSequences init ''A'' ''A'') =
     Inr \<lparr>gapp = - 6, seq1 = ''A'', seq2 = ''A'', seq1aligned = ''A'', seq2aligned = ''A'',
          seq1indexed = [0], seq2indexed = [0], score = 6\<rparr> \<and>
   getAlignedSequences (setSequences
       \<lparr>gapp = - 6, seq1 = ''A'', seq2 = ''A'', seq1aligned = ''A'', seq2aligned = ''A'',
        seq1indexed = [0], seq2indexed = [0], score = 6\<rparr> ''C'' ''GG'') = (''A'', ''A'') \<and>
   getAlignedSeqIndexes (setSequences
       \<lparr>gapp = - 6, seq1 = ''A'', seq2 = ''A'', seq1aligned = ''A'', seq2aligned = ''A'',
        seq1indexed = [0], seq2indexed = [0], score = 6\<rparr> ''C'' ''GG'') = ([0], [0]) \<and>
   getAlignmentScore (setSequences
       \<lparr>gapp = - 6, seq1 = ''A'', seq2 = ''A'', seq1aligned = ''A'', seq2aligned = ''A'',
        seq1indexed = [0], seq2indexed = [0], score = 6\<rparr> ''C'' ''GG'') = 6"
  by code_simp

text \<open>
  C5 (amended): \<open>setSequences\<close> stores the two input sequences and changes nothing else;
  until the next \<open>doAlignment\<close> the accessors for the aligned sequences, the index arrays
  and the score (and the gap penalty) return what they returned before the call.
\<close>

theorem C5_setSequences_frame:
  "getSequences (setSequences self sequence1 sequence2) = (sequence1, sequence2) \<and>
   getAlignedSequences (setSequences self sequence1 sequence2) = getAlignedSequences self \<and>
   getAlignedSeqIndexes (setSequences self sequence1 sequence2) = getAlignedSeqIndexes self \<and>
   getAlignmentScore (setSequences self sequence1 sequence2) = getAlignmentScore self \<and>
   getGapPenalty (setSequences self sequence1 sequence2) = getGapPenalty self"
  by (simp add: setSequences_def getSequences_def getAlignedSequences_def
      getAlignedSeqIndexes_def getAlignmentScore_def getGapPenalty_def)

section \<open>Concrete runs\<close>

text \<open>
  C3: with \<open>seq1 = "ACGT"\<close>, \<open>seq2 = "AGT"\<close> and the default gap penalty \<open>-6\<close>,
  \<open>doAlignment\<close> yields the aligned sequences \<open>"ACGT"\<close> and \<open>"A-GT"\<close> and the score 12.
\<close>

theorem C3_ACGT_AGT:
  "getGapPenalty init = - 6 \<and>
   doAlignment (setSequences init ''ACGT'' ''AGT'') =
     Inr \<lparr>gapp = - 6, seq1 = ''ACGT'', seq2 = ''AGT'',
          seq1aligned = ''ACGT'', seq2aligned = ''A-GT'',
          seq1indexed = [0, 1, 2, 3], seq2indexed = [0, - 2, 1, 2], score = 12\<rparr>"
  by code_simp

text \<open>
  C6: \<open>doAlignment\<close> on a freshly constructed object raises nothing; both sequences are
  empty, and so are the aligned sequences and the index arrays, and the score is 0.
\<close>

theorem C6_fresh_doAlignment:
  "doAlignment init =
     Inr \<lparr>gapp = - 6, seq1 = [], seq2 = [], seq1aligned = [], seq2aligned = [],
          seq1indexed = [], seq2indexed = [], score = 0\<rparr>"
  by code_simp

text \<open>
  C8: with \<open>seq1 = ""\<close> and \<open>seq2 = "ACGT"\<close> the result is \<open>"----"\<close> against \<open>"ACGT"\<close>
  with score 0. The range of the outer fill loop is empty, so the fill returns both
  matrices as they were (the score read from \<open>scores[0][4]\<close> is the initial 0), and the only
  row of the traceback matrix holds \<open>'u'\<close> in every column the walk visits.
\<close>

theorem C8_empty_seq1:
  "doAlignment (setSequences init [] ''ACGT'') =
     Inr \<lparr>gapp = - 6, seq1 = [], seq2 = ''ACGT'',
          seq1aligned = ''----'', seq2aligned = ''ACGT'',
          seq1indexed = [- 1, - 1, - 1, - 1], seq2indexed = [0, 1, 2, 3], score = 0\<rparr> \<and>
   py_range 1 (int (length (seq1 (setSequences init [] ''ACGT''))) + 1) = [] \<and>
   init_tracebk 0 4 (new_tracebk 0 4) = Inr [[P0, Pu, Pu, Pu, Pu]] \<and>
   fill (setSequences init [] ''ACGT'') (new_scores 0 4, [[P0, Pu, Pu, Pu, Pu]]) =
     Inr ([[0, 0, 0, 0, 0]], [[P0, Pu, Pu, Pu, Pu]])"
  by code_simp

section \<open>Gap sentinels\<close>

text \<open>
  C2 (as stated in the specification): within a run of consecutive gap columns of one
  sequence the sentinels in its index array are strictly decreasing from left to right.
  They are not: with \<open>seq1 = ""\<close> and \<open>seq2 = "AC"\<close> both columns are gaps of \<open>seq1\<close>, and
  both hold \<open>-1\<close>.
\<close>

theorem C2_counterexample:
  "doAlignment (setSequences init [] ''AC'') =
     Inr \<lparr>gapp = - 6, seq1 = [], seq2 = ''AC'', seq1aligned = ''--'', seq2aligned = ''AC'',
          seq1indexed = [- 1, - 1], seq2indexed = [0, 1], score = 0\<rparr> \<and>
   \<not> ([- 1, - 1 :: int] ! 1 < [- 1, - 1] ! 0)"
  by code_simp

text \<open>
  C2 (amended): after \<open>doAlignment\<close>, every gap column of a sequence holds the sentinel
  \<open>-(k + 1)\<close>, where \<open>k\<close> is the number of bases of that sequence to the left of the column
  (the index of the next base); hence within a run of consecutive gap columns all sentinels
  are equal.
\<close>

theorem C2_gap_sentinels:
  assumes "doAlignment self = Inr self'"
  shows "(\<forall>c < length (seq1indexed self'). seq1indexed self' ! c < 0 \<longrightarrow>
            seq1indexed self' ! c =
              - 1 - int (length (filter (\<lambda>k. 0 \<le> k) (take c (seq1indexed self'))))) \<and>
         (\<forall>c < length (seq2indexed self'). seq2indexed self' ! c < 0 \<longrightarrow>
            seq2indexed self' ! c =
              - 1 - int (length (filter (\<lambda>k. 0 \<le> k) (take c (seq2indexed self'))))) \<and>
         (\<forall>c. Suc c < length (seq1indexed self') \<and> seq1indexed self' ! c < 0 \<and>
               seq1indexed self' ! Suc c < 0 \<longrightarrow>
               seq1indexed self' ! Suc c = seq1indexed self' ! c) \<and>
         (\<forall>c. Suc c < length (seq2indexed self') \<and> seq2indexed self' ! c < 0 \<and>
               seq2indexed self' ! Suc c < 0 \<longrightarrow>
               seq2indexed self' ! Suc c = seq2indexed self' ! c)"
proof -
  from assms obtain B1 B2 Y1 Y2 where
    ix1: "seq1indexed self' = marked (- 1) (rev Y1)"
    and ix2: "seq2indexed self' = marked (- 1) (rev Y2)"
    and t1: "trail (seq1 self) (length (seq1 self)) B1 Y1"
    and t2: "trail (seq2 self) (length (seq2 self)) B2 Y2"
    by (rule doAlignment_Inr)
  have f1: "\<forall>c < length (seq1indexed self'). seq1indexed self' ! c < 0 \<longrightarrow>
            seq1indexed self' ! c =
              - 1 - int (length (filter (\<lambda>k. 0 \<le> k) (take c (seq1indexed self'))))"
    unfolding ix1 using marked_sentinel[OF t1] by simp
  have f2: "\<forall>c < length (seq2indexed self'). seq2indexed self' ! c < 0 \<longrightarrow>
            seq2indexed self' ! c =
              - 1 - int (length (filter (\<lambda>k. 0 \<le> k) (take c (seq2indexed self'))))"
    unfolding ix2 using marked_sentinel[OF t2] by simp
  from f1 f2 sentinel_run[OF f1] sentinel_run[OF f2] show ?thesis by blast
qed

theorem C2_gap_sentinels_witness:
  "doAlignment (setSequences init ''A'' ''CCA'') =
     Inr \<lparr>gapp = - 6, seq1 = ''A'', seq2 = ''CCA'', seq1aligned = ''--A'', seq2aligned = ''CCA'',
          seq1indexed = [- 1, - 1, 0], seq2indexed = [0, 1, 2], score = 6\<rparr> \<and>
   [- 1, - 1, 0 :: int] ! Suc 0 = [- 1, - 1, 0] ! 0 \<and>
   [- 1, - 1, 0 :: int] ! 0 = - 1 - int (length (filter (\<lambda>k. 0 \<le> k) (take 0 [- 1, - 1, 0 :: int])))"
proof -
  have h: "doAlignment (setSequences init ''A'' ''CCA'') =
     Inr \<lparr>gapp = - 6, seq1 = ''A'', seq2 = ''CCA'', seq1aligned = ''--A'', seq2aligned = ''CCA'',
          seq1indexed = [- 1, - 1, 0], seq2indexed = [0, 1, 2], score = 6\<rparr>"
    by code_simp
  from C2_gap_sentinels[OF h] h show ?thesis by simp
qed

section \<open>Characters outside the score matrix\<close>

text \<open>
  C7 (as stated in the specification): a character that is not a key of the score matrix,
  in either sequence, makes \<open>doAlignment\<close> fail with a lookup error. The lookup happens
  only inside the fill loops, which do not run when one of the sequences is empty:
  \<open>"X"\<close> against the empty sequence aligns without an error.
\<close>

theorem C7_counterexample:
  "CHR ''X'' \<in> set (seq1 (setSequences init ''X'' [])) \<and>
   CHR ''X'' \<notin> dict_keys svals \<and>
   doAlignment (setSequences init ''X'' []) =
     Inr \<lparr>gapp = - 6, seq1 = ''X'', seq2 = [], seq1aligned = ''X'', seq2aligned = ''-'',
          seq1indexed = [0], seq2indexed = [- 1], score = 0\<rparr>"
proof -
  have "doAlignment (setSequences init ''X'' []) =
     Inr \<lparr>gapp = - 6, seq1 = ''X'', seq2 = [], seq1aligned = ''X'', seq2aligned = ''-'',
          seq1indexed = [0], seq2indexed = [- 1], score = 0\<rparr>"
    by code_simp
  then show ?thesis
    by (simp add: svals_keys bases_def setSequences_def init_def)
qed

text \<open>
  C7 (amended): if both sequences are non-empty and a character of either of them is not a
  key of the score matrix, \<open>doAlignment\<close> fails with KeyError, and the error is raised by
  the grid fill (the initialisation of the traceback matrix before it succeeds).
\<close>

theorem C7_unknown_symbol:
  assumes "seq1 self \<noteq> []" and "seq2 self \<noteq> []"
    and "c \<in> set (seq1 self) \<union> set (seq2 self)" and "c \<notin> dict_keys svals"
  shows "doAlignment self = Inl KeyError \<and>
         (\<exists>tb. init_tracebk (int (length (seq1 self))) (int (length (seq2 self)))
                 (new_tracebk (int (length (seq1 self))) (int (length (seq2 self)))) = Inr tb \<and>
               fill self (new_scores (int (length (seq1 self))) (int (length (seq2 self))), tb) =
                 Inl KeyError)"
proof -
  from assms have r: "raises self" by (auto simp: raises_def)
  with doAlignment_cases[of self] have "doAlignment self = Inl KeyError" by blast
  with fill_raises[OF r] show ?thesis by simp
qed

theorem C7_unknown_symbol_witness:
  "seq1 (setSequences init ''AX'' ''A'') \<noteq> [] \<and> seq2 (setSequences init ''AX'' ''A'') \<noteq> [] \<and>
   CHR ''X'' \<in> set (seq1 (setSequences init ''AX'' ''A'')) \<union> set (seq2 (setSequences init ''AX'' ''A'')) \<and>
   CHR ''X'' \<notin> dict_keys svals \<and>
   doAlignment (setSequences init ''AX'' ''A'') = Inl KeyError"
proof -
  have h1: "seq1 (setSequences init ''AX'' ''A'') \<noteq> []"
    and h2: "seq2 (setSequences init ''AX'' ''A'') \<noteq> []"
    and h3: "CHR ''X'' \<in> set (seq1 (setSequences init ''AX'' ''A'')) \<union>
               set (seq2 (setSequences init ''AX'' ''A''))"
    by (simp_all add: setSequences_def init_def)
  have h4: "CHR ''X'' \<notin> dict_keys svals"
    by (simp add: svals_keys bases_def)
  from C7_unknown_symbol[OF h1 h2 h3 h4] h1 h2 h3 h4 show ?thesis by blast
qed

section \<open>Index arrays and aligned sequences\<close>

text \<open>
  C9: after \<open>doAlignment\<close>, in every column where the index array of \<open>seq1\<close> holds a
  non-negative value \<open>k\<close>, \<open>k\<close> is a valid index of \<open>seq1\<close> and the aligned sequence 1
  holds \<open>seq1[k]\<close> in that column; likewise for \<open>seq2\<close>. The input sequences themselves
  are not changed by the run.
\<close>

theorem C9_index_round_trip:
  assumes "doAlignment self = Inr self'"
  shows "seq1 self' = seq1 self \<and> seq2 self' = seq2 self \<and>
         (\<forall>c < length (seq1indexed self'). 0 \<le> seq1indexed self' ! c \<longrightarrow>
            c < length (seq1aligned self') \<and>
            nat (seq1indexed self' ! c) < length (seq1 self) \<and>
            seq1aligned self' ! c = seq1 self ! nat (seq1indexed self' ! c)) \<and>
         (\<forall>c < length (seq2indexed self'). 0 \<le> seq2indexed self' ! c \<longrightarrow>
            c < length (seq2aligned self') \<and>
            nat (seq2indexed self' ! c) < length (seq2 self) \<and>
            seq2aligned self' ! c = seq2 self ! nat (seq2indexed self' ! c))"
proof -
  from assms obtain B1 B2 Y1 Y2 where
    s: "seq1 self' = seq1 self" "seq2 self' = seq2 self"
    and al: "seq1aligned self' = rev B1" "seq2aligned self' = rev B2"
    and ix: "seq1indexed self' = marked (- 1) (rev Y1)"
            "seq2indexed self' = marked (- 1) (rev Y2)"
    and t1: "trail (seq1 self) (length (seq1 self)) B1 Y1"
    and t2: "trail (seq2 self) (length (seq2 self)) B2 Y2"
    by (rule doAlignment_Inr)
  show ?thesis
    unfolding ix al using s marked_round_trip[OF t1] marked_round_trip[OF t2] by simp
qed

theorem C9_index_round_trip_witness:
  "doAlignment (setSequences init ''ACGT'' ''AGT'') =
     Inr \<lparr>gapp = - 6, seq1 = ''ACGT'', seq2 = ''AGT'',
          seq1aligned = ''ACGT'', seq2aligned = ''A-GT'',
          seq1indexed = [0, 1, 2, 3], seq2indexed = [0, - 2, 1, 2], score = 12\<rparr> \<and>
   (0 :: int) \<le> [0, - 2, 1, 2] ! 2 \<and>
   ''A-GT'' ! 2 = seq2 (setSequences init ''ACGT'' ''AGT'') ! nat ([0, - 2, 1, 2] ! 2) \<and>
   ''ACGT'' ! 3 = seq1 (setSequences init ''ACGT'' ''AGT'') ! nat ([0, 1, 2, 3] ! 3)"
proof -
  have h: "doAlignment (setSequences init ''ACGT'' ''AGT'') =
     Inr \<lparr>gapp = - 6, seq1 = ''ACGT'', seq2 = ''AGT'',
          seq1aligned = ''ACGT'', seq2aligned = ''A-GT'',
          seq1indexed = [0, 1, 2, 3], seq2indexed = [0, - 2, 1, 2], score = 12\<rparr>"
    by code_simp
  from C9_index_round_trip[OF h] h show ?thesis
    by (simp add: setSequences_def init_def)
qed

text \<open>
  C10: for input sequences over the keys of the score matrix, \<open>doAlignment\<close> returns, the
  two aligned sequences (and the two index arrays) have the same length, and the
  non-negative entries of the index array of \<open>seq1\<close>, read from left to right, are exactly
  \<open>0, 1, ..., len(seq1) - 1\<close>; likewise for \<open>seq2\<close>.
\<close>

theorem C10_alignment_shape:
  assumes "set (seq1 self) \<union> set (seq2 self) \<subseteq> dict_keys svals"
  shows "\<exists>self'. doAlignment self = Inr self' \<and>
           length (seq1aligned self') = length (seq2aligned self') \<and>
           length (seq1indexed self') = length (seq1aligned self') \<and>
           length (seq2indexed self') = length (seq2aligned self') \<and>
           filter (\<lambda>k. 0 \<le> k) (seq1indexed self') = map int [0..<length (seq1 self)] \<and>
           filter (\<lambda>k. 0 \<le> k) (seq2indexed self') = map int [0..<length (seq2 self)]"
proof -
  from assms have "\<not> raises self" by (simp add: raises_def)
  with doAlignment_cases[of self] obtain B1 B2 Y1 Y2 sc where
    d: "doAlignment self =
        Inr (self\<lparr>score := sc, seq1aligned := rev B1, seq2aligned := rev B2,
                  seq1indexed := marked (- 1) (rev Y1), seq2indexed := marked (- 1) (rev Y2)\<rparr>)"
    and t1: "trail (seq1 self) (length (seq1 self)) B1 Y1"
    and t2: "trail (seq2 self) (length (seq2 self)) B2 Y2" and len: "length B1 = length B2"
    by blast
  show ?thesis
    using d len trail_length[OF t1] trail_length[OF t2] trail_filter[OF t1] trail_filter[OF t2]
    by (simp add: filter_marked)
qed

theorem C10_alignment_shape_witness:
  "set (seq1 (setSequences init ''ACGT'' ''AGT'')) \<union> set (seq2 (setSequences init ''ACGT'' ''AGT''))
     \<subseteq> dict_keys svals \<and>
   doAlignment (setSequences init ''ACGT'' ''AGT'') =
     Inr \<lparr>gapp = - 6, seq1 = ''ACGT'', seq2 = ''AGT'',
          seq1aligned = ''ACGT'', seq2aligned = ''A-GT'',
          seq1indexed = [0, 1, 2, 3], seq2indexed = [0, - 2, 1, 2], score = 12\<rparr> \<and>
   length ''ACGT'' = length ''A-GT'' \<and>
   filter (\<lambda>k. 0 \<le> k) [0, 1, 2, 3 :: int] = map int [0..<length ''ACGT''] \<and>
   filter (\<lambda>k. 0 \<le> k) [0, - 2, 1, 2 :: int] = map int [0..<length ''AGT'']"
proof -
  have h: "set (seq1 (setSequences init ''ACGT'' ''AGT'')) \<union>
           set (seq2 (setSequences init ''ACGT'' ''AGT'')) \<subseteq> dict_keys svals"
    by (simp add: setSequences_def init_def svals_keys bases_def)
  have e: "doAlignment (setSequences init ''ACGT'' ''AGT'') =
     Inr \<lparr>gapp = - 6, seq1 = ''ACGT'', seq2 = ''AGT'',
          seq1aligned = ''ACGT'', seq2aligned = ''A-GT'',
          seq1indexed = [0, 1, 2, 3], seq2indexed = [0, - 2, 1, 2], score = 12\<rparr>"
    by code_simp
  from C10_alignment_shape[OF h] e
  have "length ''ACGT'' = length ''A-GT'' \<and>
     filter (\<lambda>k. 0 \<le> k) [0, 1, 2, 3 :: int] =
       map int [0..<length (seq1 (setSequences init ''ACGT'' ''AGT''))] \<and>
     filter (\<lambda>k. 0 \<le> k) [0, - 2, 1, 2 :: int] =
       map int [0..<length (seq2 (setSequences init ''ACGT'' ''AGT''))]"
    by auto
  moreover have "seq1 (setSequences init ''ACGT'' ''AGT'') = ''ACGT''"
    and "seq2 (setSequences init ''ACGT'' ''AGT'') = ''AGT''"
    by (simp_all add: setSequences_def init_def)
  ultimately show ?thesis using h e by (simp only:)
qed

end
